theory Spec2Isabelle
  imports Complex_Main "HOL-Library.Word" "HOL-Library.Sublist"
begin

section \<open>JavaScript strings and numbers\<close>

text \<open>
  A JavaScript string is a sequence of UTF-16 code units. The literals of the source are
  ASCII and are written \<open>js ''...''\<close>.
\<close>

type_synonym code_unit = "16 word"
type_synonym js_string = "code_unit list"

definition js :: "string \<Rightarrow> js_string" where
  "js s = map of_char s"

text \<open>
  The characters that \<open>String.prototype.trim\<close> strips and that the regular expression
  class \<open>\s\<close> matches are the same set: ECMAScript's WhiteSpace (TAB, VT, FF, SP, NBSP,
  the BOM and the Unicode space separators) and LineTerminator (LF, CR, LS, PS).
\<close>

definition isWhiteSpace :: "code_unit \<Rightarrow> bool" where
  "isWhiteSpace c \<longleftrightarrow>
     c = 0x0009 \<or> c = 0x000A \<or> c = 0x000B \<or> c = 0x000C \<or> c = 0x000D \<or>
     c = 0x0020 \<or> c = 0x00A0 \<or> c = 0x1680 \<or> (0x2000 \<le> c \<and> c \<le> 0x200A) \<or>
     c = 0x2028 \<or> c = 0x2029 \<or> c = 0x202F \<or> c = 0x205F \<or> c = 0x3000 \<or>
     c = 0xFEFF"

text \<open>\<open>s.trim()\<close>: white space is removed from both ends.\<close>

definition trim :: "js_string \<Rightarrow> js_string" where
  "trim s = rev (dropWhile isWhiteSpace (rev (dropWhile isWhiteSpace s)))"

text \<open>
  \<open>s.split(/\s+/)\<close>: the string is cut at every maximal run of white space. A run at
  the start or at the end leaves an empty first or last piece, and the empty string gives
  the one piece \<open>''\<close>. The first argument is the piece being collected.
\<close>

function split_ws :: "js_string \<Rightarrow> js_string \<Rightarrow> js_string list" where
  "split_ws cur [] = [cur]"
| "split_ws cur (c # cs) =
     (if isWhiteSpace c then cur # split_ws [] (dropWhile isWhiteSpace cs)
      else split_ws (cur @ [c]) cs)"
  by pat_completeness auto
termination
  by (relation "measure (\<lambda>(cur, s). length s)")
     (auto simp: less_Suc_eq_le length_dropWhile_le)

definition split_whitespace :: "js_string \<Rightarrow> js_string list" where
  "split_whitespace s = split_ws [] s"

text \<open>
  The expression \<open>t.split(/\s+/).filter(word => word.length > 0)\<close>, which the source
  applies to a trimmed transcript in three places.
\<close>

definition words_of :: "js_string \<Rightarrow> js_string list" where
  "words_of t = filter (\<lambda>word. length word > 0) (split_whitespace t)"

text \<open>
  Numbers are exact rationals: the durations are quotients of integer millisecond counts
  and the computed speeds are rounded to integers; the rounding error of IEEE doubles is
  not part of the model. \<open>Math.round\<close> rounds to the nearest integer, a tie going up.
\<close>

definition Math_round :: "rat \<Rightarrow> int" where
  "Math_round x = \<lfloor>x + 1 / 2\<rfloor>"

section \<open>Data\<close>

record SpeechResult =
  transcript :: js_string
  wordCount :: nat
  duration :: rat
  wpm :: int
  timestamp :: int
  region :: js_string

text \<open>
  The breakpoints of a region; \<open>normal\<close> is the pair \<open>[low, high]\<close>. Of a
  \<open>RegionSpeed\<close> entry the flag (an emoji) is left out: it is only rendered.
\<close>

record speed_ranges =
  slow :: int
  normal :: "int \<times> int"
  fast :: int
  veryFast :: int

record RegionSpeed =
  name :: js_string
  ranges :: speed_ranges
  context_text :: js_string

definition region_entry ::
  "string \<Rightarrow> int \<Rightarrow> int \<Rightarrow> int \<Rightarrow> int \<Rightarrow> int \<Rightarrow> string \<Rightarrow> RegionSpeed" where
  "region_entry n s lo hi f vf c =
     \<lparr>name = js n,
      ranges = \<lparr>slow = s, normal = (lo, hi), fast = f, veryFast = vf\<rparr>,
      context_text = js c\<rparr>"

definition REGIONAL_SPEEDS_table :: "(js_string \<times> RegionSpeed) list" where
  "REGIONAL_SPEEDS_table =
    [(js ''us'', region_entry ''United States'' 120 150 180 200 220
        ''American English speakers typically speak at a moderate pace''),
     (js ''uk'', region_entry ''United Kingdom'' 110 140 170 190 210
        ''British English tends to be slightly slower and more measured''),
     (js ''au'', region_entry ''Australia'' 115 145 175 195 215
        ''Australian English has a relaxed, moderate speaking pace''),
     (js ''ca'', region_entry ''Canada'' 118 148 178 198 218
        ''Canadian English similar to US but slightly more measured''),
     (js ''in'', region_entry ''India'' 130 160 190 210 230
        ''Indian English speakers often speak at a faster pace''),
     (js ''sg'', region_entry ''Singapore'' 135 165 195 215 235
        ''Singaporean English tends to be quite fast-paced''),
     (js ''za'', region_entry ''South Africa'' 125 155 185 205 225
        ''South African English has a distinctive moderate to fast pace''),
     (js ''ie'', region_entry ''Ireland'' 115 145 175 195 215
        ''Irish English speakers tend to have a melodic, moderate pace''),
     (js ''nz'', region_entry ''New Zealand'' 112 142 172 192 212
        ''New Zealand English is typically calm and measured'')]"

definition REGIONAL_SPEEDS :: "js_string \<rightharpoonup> RegionSpeed" where
  "REGIONAL_SPEEDS = map_of REGIONAL_SPEEDS_table"

text \<open>
  One entry of \<open>event.results\<close>: its finality and the transcript of its first
  alternative, \<open>event.results[i][0].transcript\<close> (a recognition result always has one).
\<close>

record recognition_result =
  isFinal :: bool
  alternative0 :: js_string

record result_event =
  resultIndex :: nat
  results :: "recognition_result list"

text \<open>What the component asks of the browser, in the order of the calls.\<close>

datatype effect = RecognitionStart | RecognitionStop | SetInterval | ClearInterval | ConsoleLog

text \<open>
  The state of the component: the \<open>useState\<close> cells and the refs. \<open>intervalRef\<close> is
  true when it holds a timer handle, \<open>startTimeRef\<close> and the timestamps are milliseconds.
\<close>

record app_state =
  isRecording :: bool
  transcript :: js_string
  wordCount :: nat
  duration :: rat
  wpm :: int
  results :: "SpeechResult list"
  isSupported :: bool
  error :: js_string
  selectedRegion :: js_string
  startTimeRef :: int
  intervalRef :: bool
  currentTranscriptRef :: js_string
  effects :: "effect list"

definition initial_state :: "js_string \<Rightarrow> app_state" where
  "initial_state saved_region =
     \<lparr>isRecording = False, transcript = [], wordCount = 0, duration = 0, wpm = 0,
      results = [], isSupported = True, error = [], selectedRegion = saved_region,
      startTimeRef = 0, intervalRef = False, currentTranscriptRef = [], effects = []\<rparr>"

section \<open>The recognition handlers\<close>

text \<open>
  \<open>recognition.onresult\<close>. The first loop runs from \<open>event.resultIndex\<close> and collects
  the final and the interim texts (the final one is never read afterwards); the second
  loop runs over the whole list and collects the final texts.
\<close>

definition newTranscripts :: "result_event \<Rightarrow> js_string \<times> js_string" where
  "newTranscripts event =
     foldl (\<lambda>(finalTranscript, interimTranscript) r.
              if isFinal r then (finalTranscript @ alternative0 r, interimTranscript)
              else (finalTranscript, interimTranscript @ alternative0 r))
       ([], []) (drop (resultIndex event) (result_event.results event))"

definition interimTranscript :: "result_event \<Rightarrow> js_string" where
  "interimTranscript event = snd (newTranscripts event)"

definition completeTranscript :: "result_event \<Rightarrow> js_string" where
  "completeTranscript event =
     foldl (\<lambda>acc r. if isFinal r then acc @ alternative0 r else acc) []
       (result_event.results event)"

definition fullTranscript :: "result_event \<Rightarrow> js_string" where
  "fullTranscript event = completeTranscript event @ interimTranscript event"

definition onresult :: "result_event \<Rightarrow> app_state \<Rightarrow> app_state" where
  "onresult event s =
     s\<lparr>currentTranscriptRef := fullTranscript event, transcript := fullTranscript event\<rparr>"

text \<open>\<open>recognition.onerror\<close>; the argument is \<open>event.error\<close>.\<close>

definition onerror :: "js_string \<Rightarrow> app_state \<Rightarrow> app_state" where
  "onerror event_error s =
     s\<lparr>error := js ''Speech recognition error: '' @ event_error, isRecording := False\<rparr>"

text \<open>
  \<open>recognition.onend\<close>. The handler tests the \<open>isRecording\<close> of the render whose effect
  registered it (the effect has the dependency list \<open>[isRecording]\<close>), so that value is
  an argument; \<open>start_throws\<close> says whether \<open>recognition.start()\<close> throws.
\<close>

definition onend :: "bool \<Rightarrow> bool \<Rightarrow> app_state \<Rightarrow> app_state" where
  "onend isRecording_seen start_throws s =
     (if isRecording_seen then
        (if start_throws then s\<lparr>effects := effects s @ [RecognitionStart, ConsoleLog]\<rparr>
         else s\<lparr>effects := effects s @ [RecognitionStart]\<rparr>)
      else s)"

section \<open>The effect that computes the speed\<close>

text \<open>
  The \<open>useEffect\<close> with the dependencies \<open>[transcript, duration, isRecording]\<close>: the
  speed is computed from 30 seconds on; before, only the word count is.
\<close>

definition wpmEffect :: "app_state \<Rightarrow> app_state" where
  "wpmEffect s =
     (if isRecording s \<and> duration s \<ge> 30 \<and> trim (transcript s) \<noteq> [] then
        let words = words_of (trim (transcript s));
            currentWordCount = length words;
            currentWpm = Math_round ((of_nat currentWordCount / duration s) * 60)
        in s\<lparr>wordCount := currentWordCount, wpm := currentWpm\<rparr>
      else if isRecording s \<and> trim (transcript s) \<noteq> [] then
        let words = words_of (trim (transcript s))
        in s\<lparr>wordCount := length words, wpm := 0\<rparr>
      else s)"

section \<open>The controls\<close>

text \<open>
  \<open>startRecording\<close>; \<open>now\<close> is \<open>Date.now()\<close> and \<open>start_throws\<close> says whether the
  call of \<open>recognition.start()\<close> throws.
\<close>

definition startRecording :: "int \<Rightarrow> bool \<Rightarrow> app_state \<Rightarrow> app_state" where
  "startRecording now start_throws s =
     (if \<not> isSupported s then s
      else
        let s1 = s\<lparr>error := [], transcript := [], wordCount := 0, duration := 0, wpm := 0,
                   currentTranscriptRef := [], startTimeRef := now, isRecording := True,
                   effects := effects s @ [RecognitionStart]\<rparr>
        in if start_throws then
             s1\<lparr>error := js ''Failed to start speech recognition. Please try again.'',
                isRecording := False\<rparr>
           else s1\<lparr>intervalRef := True, effects := effects s1 @ [SetInterval]\<rparr>)"

text \<open>The callback of the interval: \<open>setDuration((Date.now() - startTimeRef.current) / 1000)\<close>.\<close>

definition intervalTick :: "int \<Rightarrow> app_state \<Rightarrow> app_state" where
  "intervalTick now s = s\<lparr>duration := of_int (now - startTimeRef s) / 1000\<rparr>"

text \<open>
  The speed stored at the end: \<open>finalDuration > 0 ? Math.round((finalWordCount /
  finalDuration) * 60) : 0\<close>.
\<close>

definition finalWpm :: "nat \<Rightarrow> rat \<Rightarrow> int" where
  "finalWpm finalWordCount finalDuration =
     (if finalDuration > 0 then Math_round ((of_nat finalWordCount / finalDuration) * 60)
      else 0)"

text \<open>
  \<open>stopRecording\<close>. \<open>finalResult\<close> is the \<open>result\<close> object that it builds from the
  transcript ref and the duration; \<open>now\<close> is the \<open>new Date()\<close> of the result.
\<close>

definition finalResult :: "int \<Rightarrow> app_state \<Rightarrow> SpeechResult" where
  "finalResult now s =
     (let finalTranscript = trim (currentTranscriptRef s);
          finalWords = words_of finalTranscript;
          finalWordCount = length finalWords;
          finalDuration = duration s
      in \<lparr>SpeechResult.transcript = finalTranscript,
          SpeechResult.wordCount = finalWordCount,
          SpeechResult.duration = finalDuration,
          SpeechResult.wpm = finalWpm finalWordCount finalDuration,
          timestamp = now,
          region = selectedRegion s\<rparr>)"

definition stopRecording :: "int \<Rightarrow> app_state \<Rightarrow> app_state" where
  "stopRecording now s =
     (let s1 = s\<lparr>isRecording := False, effects := effects s @ [RecognitionStop]\<rparr>;
          s2 = (if intervalRef s1
                then s1\<lparr>intervalRef := False, effects := effects s1 @ [ClearInterval]\<rparr>
                else s1);
          finalTranscript = trim (currentTranscriptRef s);
          finalWordCount = length (words_of finalTranscript)
      in if finalTranscript \<noteq> [] \<and> finalWordCount > 0
         then s2\<lparr>results := take 10 (finalResult now s # results s2)\<rparr>
         else s2)"

definition reset :: "app_state \<Rightarrow> app_state" where
  "reset s =
     s\<lparr>transcript := [], wordCount := 0, duration := 0, wpm := 0, error := [],
       currentTranscriptRef := []\<rparr>"

text \<open>
  \<open>getWpmLabel\<close>. A region that is no key of the table makes
  \<open>REGIONAL_SPEEDS[region].ranges\<close> throw a TypeError, but only after the test for 0.
  \<open>labelInRanges\<close> is the cascade on the ranges that were looked up.
\<close>

datatype js_error = TypeError

definition labelInRanges :: "int \<Rightarrow> speed_ranges \<Rightarrow> js_string" where
  "labelInRanges w r =
     (if w < slow r then js ''Slow''
      else if w \<ge> fst (normal r) \<and> w \<le> snd (normal r) then js ''Ideal''
      else if w < fast r then js ''Fast''
      else js ''Very Fast'')"

definition getWpmLabel :: "int \<Rightarrow> js_string \<Rightarrow> js_error + js_string" where
  "getWpmLabel w region_key =
     (if w = 0 then Inr (js ''Calculating...'')
      else case REGIONAL_SPEEDS region_key of
        None \<Rightarrow> Inl TypeError
      | Some entry \<Rightarrow> Inr (labelInRanges w (ranges entry)))"

section \<open>Runs of the component\<close>

text \<open>
  What can happen to the component: a click on a control, an event of the recognition
  object, a tick of the interval. When the events fire is up to the browser; a run is a
  list of them. After the handler of an event the component renders again and the speed
  effect runs; where none of its dependencies changed it stores again what it stored
  before.
\<close>

datatype event =
    Start int bool
  | Stop int
  | Reset
  | Result result_event
  | Error js_string
  | End bool bool
  | Tick int

fun handle :: "event \<Rightarrow> app_state \<Rightarrow> app_state" where
  "handle (Start now start_throws) s = startRecording now start_throws s"
| "handle (Stop now) s = stopRecording now s"
| "handle Reset s = reset s"
| "handle (Result ev) s = onresult ev s"
| "handle (Error e) s = onerror e s"
| "handle (End seen start_throws) s = onend seen start_throws s"
| "handle (Tick now) s = intervalTick now s"

definition step :: "event \<Rightarrow> app_state \<Rightarrow> app_state" where
  "step e s = wpmEffect (handle e s)"

definition run :: "event list \<Rightarrow> app_state \<Rightarrow> app_state" where
  "run es s = foldl (\<lambda>s e. step e s) s es"


section \<open>The earlier variant of the speed effect\<close>

text \<open>
  The repository holds a second copy of the component, without the table of regions. Its
  handlers and controls are the ones above; its speed effect has no threshold of 30
  seconds: it computes the speed whenever the duration is positive.
\<close>

definition wpmEffect_earlier :: "app_state \<Rightarrow> app_state" where
  "wpmEffect_earlier s =
     (if isRecording s \<and> duration s > 0 \<and> trim (transcript s) \<noteq> [] then
        let words = words_of (trim (transcript s));
            currentWordCount = length words;
            currentWpm = Math_round ((of_nat currentWordCount / duration s) * 60)
        in s\<lparr>wordCount := currentWordCount, wpm := currentWpm\<rparr>
      else s)"

text \<open>Its labels have fixed thresholds, and no label for a speed that is not measured yet.\<close>

definition getWpmLabel_earlier :: "int \<Rightarrow> js_string" where
  "getWpmLabel_earlier w =
     (if w < 120 then js ''Slow''
      else if w < 160 then js ''Normal''
      else if w < 200 then js ''Fast''
      else js ''Very Fast'')"

section \<open>What the recognition capability promises\<close>

text \<open>
  The result list of a snapshot is cumulative: the final results come first, followed by
  the interim ones, and a result that is final stays in the list unchanged in every later
  snapshot. \<open>finals_first\<close> says the first of one snapshot, \<open>finals_kept\<close> the second
  of a snapshot and its successor.
\<close>

definition finals_first :: "result_event \<Rightarrow> bool" where
  "finals_first ev \<longleftrightarrow> \<not> list_ex isFinal (dropWhile isFinal (result_event.results ev))"

definition finals_kept :: "result_event \<Rightarrow> result_event \<Rightarrow> bool" where
  "finals_kept ev ev' \<longleftrightarrow>
     prefix (takeWhile isFinal (result_event.results ev)) (result_event.results ev')"

section \<open>The bands of the specification\<close>

text \<open>
  The classification in the words of the specification: Pending at 0, then TooSlow below
  \<open>slow\<close>, Ideal within the closed normal interval, Fast below \<open>fast\<close>, else VeryFast.
  \<open>band_label\<close> is the text that the component shows for a band.
\<close>

datatype band = Pending | TooSlow | Ideal | Fast | VeryFast

definition band_spec :: "int \<Rightarrow> speed_ranges \<Rightarrow> band" where
  "band_spec w profile =
     (if w = 0 then Pending
      else if w < slow profile then TooSlow
      else if fst (normal profile) \<le> w \<and> w \<le> snd (normal profile) then Ideal
      else if w < fast profile then Fast
      else VeryFast)"

fun band_label :: "band \<Rightarrow> js_string" where
  "band_label Pending = js ''Calculating...''"
| "band_label TooSlow = js ''Slow''"
| "band_label Ideal = js ''Ideal''"
| "band_label Fast = js ''Fast''"
| "band_label VeryFast = js ''Very Fast''"

definition valid_profile :: "speed_ranges \<Rightarrow> bool" where
  "valid_profile p \<longleftrightarrow>
     slow p < fst (normal p) \<and> fst (normal p) \<le> snd (normal p) \<and>
     snd (normal p) < fast p \<and> fast p < veryFast p"

section \<open>Sample inputs\<close>

definition final_result :: "string \<Rightarrow> recognition_result" where
  "final_result t = \<lparr>isFinal = True, alternative0 = js t\<rparr>"

definition interim_result :: "string \<Rightarrow> recognition_result" where
  "interim_result t = \<lparr>isFinal = False, alternative0 = js t\<rparr>"

definition snapshot :: "nat \<Rightarrow> recognition_result list \<Rightarrow> result_event" where
  "snapshot i rs = \<lparr>resultIndex = i, results = rs\<rparr>"

definition snapshot_a :: result_event where
  "snapshot_a = snapshot 0 [final_result ''hello '', interim_result ''wor'']"

definition snapshot_b :: result_event where
  "snapshot_b =
     snapshot 1 [final_result ''hello '', final_result ''world '', interim_result ''how'']"

definition fresh :: app_state where
  "fresh = initial_state (js ''us'')"

definition spoken_5s :: app_state where
  "spoken_5s = run [Start 0 False, Result (snapshot 0 [final_result ''hello world'']),
                    Tick 5000] fresh"


definition said_hello_world :: app_state where
  "said_hello_world =
     run [Start 0 False, Result (snapshot 0 [final_result ''hello world ''])] fresh"

definition said_blank :: app_state where
  "said_blank = run [Start 0 False, Result (snapshot 0 [interim_result ''  ''])] fresh"

definition ten_sessions :: "event list" where
  "ten_sessions =
     concat (map (\<lambda>k. [Start 0 False, Result (snapshot 0 [final_result ''hello world '']),
                        Stop k]) [1, 2, 3, 4, 5, 6, 7, 8, 9, 10])"

definition us_ranges :: speed_ranges where
  "us_ranges = \<lparr>slow = 120, normal = (150, 180), fast = 200, veryFast = 220\<rparr>"

section \<open>Facts about strings and words\<close>

lemma hd_trim: "trim t \<noteq> [] \<Longrightarrow> \<not> isWhiteSpace (hd (trim t))"
  unfolding trim_def
  by (metis (no_types, lifting) Nil_is_rev_conv dropWhile.simps(1)
      dropWhile_eq_Nil_conv dropWhile_last hd_dropWhile last_rev rev_rev_ident)

lemma trim_Nil_iff: "trim t = [] \<longleftrightarrow> (\<forall>c \<in> set t. isWhiteSpace c)"
proof
  assume "trim t = []"
  then have "\<forall>c \<in> set (dropWhile isWhiteSpace t). isWhiteSpace c"
    by (simp add: trim_def)
  then have "dropWhile isWhiteSpace t = []"
    using hd_dropWhile [of isWhiteSpace t] by (cases "dropWhile isWhiteSpace t") auto
  then show "\<forall>c \<in> set t. isWhiteSpace c"
    by simp
next
  assume "\<forall>c \<in> set t. isWhiteSpace c"
  then have d: "dropWhile isWhiteSpace t = []"
    by simp
  show "trim t = []"
    by (simp only: trim_def d dropWhile.simps rev.simps)
qed

lemma split_ws_hd: "split_ws cur s \<noteq> [] \<and> (\<exists>ys. hd (split_ws cur s) = cur @ ys)"
  by (induction cur s rule: split_ws.induct) auto

lemma words_of_trim:
  assumes "trim t \<noteq> []"
  shows "words_of (trim t) \<noteq> []"
proof -
  from assms obtain c cs where tc: "trim t = c # cs"
    by (cases "trim t") auto
  with hd_trim [OF assms] have nws: "\<not> isWhiteSpace c"
    by simp
  have "split_whitespace (trim t) = split_ws [c] cs"
    by (simp add: split_whitespace_def tc nws)
  moreover obtain ys where "split_ws [c] cs \<noteq> []" "hd (split_ws [c] cs) = [c] @ ys"
    using split_ws_hd [of "[c]" cs] by blast
  ultimately have "hd (split_whitespace (trim t)) \<in> set (split_whitespace (trim t))"
    and "hd (split_whitespace (trim t)) \<noteq> []"
    by (metis hd_in_set, simp)
  then have "hd (split_whitespace (trim t)) \<in> set (words_of (trim t))"
    by (simp add: words_of_def)
  then show ?thesis
    by auto
qed

lemma words_of_trim_pos: "trim t \<noteq> [] \<Longrightarrow> 0 < length (words_of (trim t))"
  using words_of_trim [of t] by simp

section \<open>Facts about the handlers\<close>

lemma complete_foldl:
  "foldl (\<lambda>acc r. if isFinal r then acc @ alternative0 r else acc) a rs
     = a @ concat (map alternative0 (filter isFinal rs))"
  by (induction rs arbitrary: a) auto

lemma completeTranscript_concat:
  "completeTranscript ev = concat (map alternative0 (filter isFinal (result_event.results ev)))"
  by (simp add: completeTranscript_def complete_foldl)

lemma new_foldl:
  "foldl (\<lambda>(finalTranscript, interimTranscript) r.
              if isFinal r then (finalTranscript @ alternative0 r, interimTranscript)
              else (finalTranscript, interimTranscript @ alternative0 r)) (a, b) rs
   = (a @ concat (map alternative0 (filter isFinal rs)),
      b @ concat (map alternative0 (filter (\<lambda>r. \<not> isFinal r) rs)))"
  by (induction rs arbitrary: a b) auto

lemma interimTranscript_concat:
  "interimTranscript ev = concat (map alternative0 (filter (\<lambda>r. \<not> isFinal r)
      (drop (resultIndex ev) (result_event.results ev))))"
  by (simp add: interimTranscript_def newTranscripts_def new_foldl)

lemma finals_first_filter:
  assumes "finals_first ev"
  shows "filter isFinal (result_event.results ev) = takeWhile isFinal (result_event.results ev)"
proof -
  let ?rs = "result_event.results ev"
  have "filter isFinal ?rs = filter isFinal (takeWhile isFinal ?rs @ dropWhile isFinal ?rs)"
    by simp
  also have "\<dots> = filter isFinal (takeWhile isFinal ?rs) @ filter isFinal (dropWhile isFinal ?rs)"
    by (simp only: filter_append)
  also have "filter isFinal (dropWhile isFinal ?rs) = []"
    using assms by (auto simp: finals_first_def list_ex_iff filter_empty_conv)
  also have "filter isFinal (takeWhile isFinal ?rs) = takeWhile isFinal ?rs"
    by (simp add: filter_id_conv) (meson set_takeWhileD)
  finally show ?thesis
    by simp
qed

lemma complete_prefix:
  assumes "finals_first ev" and "finals_kept ev ev'"
  shows "prefix (completeTranscript ev) (completeTranscript ev')"
proof -
  from assms(2) obtain rest
    where r: "result_event.results ev' = takeWhile isFinal (result_event.results ev) @ rest"
    by (auto simp: finals_kept_def prefix_def)
  have "completeTranscript ev' =
          completeTranscript ev @ concat (map alternative0 (filter isFinal rest))"
    by (simp add: completeTranscript_concat r finals_first_filter [OF assms(1), symmetric])
  then show ?thesis
    by (simp add: prefix_def)
qed

lemma wpmEffect_frame:
  "transcript (wpmEffect s) = transcript s"
  "currentTranscriptRef (wpmEffect s) = currentTranscriptRef s"
  "results (wpmEffect s) = results s"
  "isRecording (wpmEffect s) = isRecording s"
  "duration (wpmEffect s) = duration s"
  "error (wpmEffect s) = error s"
  "effects (wpmEffect s) = effects s"
  by (simp_all add: wpmEffect_def Let_def)

lemma wpmEffect_idle: "\<not> isRecording s \<Longrightarrow> wpmEffect s = s"
  by (simp add: wpmEffect_def)

lemma wpmEffect_blank: "trim (transcript s) = [] \<Longrightarrow> wpmEffect s = s"
  by (simp add: wpmEffect_def)

lemma stopRecording_results:
  "results (stopRecording now s) =
     (if trim (currentTranscriptRef s) \<noteq> []
      then take 10 (finalResult now s # results s) else results s)"
  using words_of_trim [of "currentTranscriptRef s"]
  by (auto simp: stopRecording_def Let_def)

lemma handle_results:
  "results (handle e s) = (case e of Stop now \<Rightarrow> results (stopRecording now s) | _ \<Rightarrow> results s)"
  by (cases e)
     (simp_all add: startRecording_def Let_def reset_def onresult_def onerror_def onend_def
        intervalTick_def)

lemma step_results:
  "results (step e s) = (case e of Stop now \<Rightarrow> results (stopRecording now s) | _ \<Rightarrow> results s)"
  by (simp add: step_def wpmEffect_frame handle_results)

lemma step_results_bound: "length (results s) \<le> 10 \<Longrightarrow> length (results (step e s)) \<le> 10"
  by (cases e) (simp_all add: step_results stopRecording_results)

lemma run_results_bound: "length (results s) \<le> 10 \<Longrightarrow> length (results (run es s)) \<le> 10"
  unfolding run_def by (induction es arbitrary: s) (simp_all add: step_results_bound)




lemma step_transcript_ref:
  "transcript s = currentTranscriptRef s \<Longrightarrow>
   transcript (step e s) = currentTranscriptRef (step e s)"
  by (cases e)
     (simp_all add: step_def wpmEffect_frame startRecording_def Let_def stopRecording_def
        reset_def onresult_def onerror_def onend_def intervalTick_def)

lemma run_transcript_ref:
  "transcript s = currentTranscriptRef s \<Longrightarrow>
   transcript (run es s) = currentTranscriptRef (run es s)"
  unfolding run_def by (induction es arbitrary: s) (simp_all add: step_transcript_ref)

section \<open>The transcript\<close>

text \<open>
  C1. Two consecutive snapshots of the recognition capability, processed from any state:
  after the first the transcript is its final text followed by its interim text; the final
  text of the first is a prefix of the final text of the second; and after the second the
  transcript still begins with the final text of the first, everything after that prefix
  being what the second snapshot delivers.
\<close>

theorem final_prefix_append_only:
  assumes "finals_first ev" and "finals_kept ev ev'"
  shows "transcript (step (Result ev) s) = completeTranscript ev @ interimTranscript ev \<and>
         prefix (completeTranscript ev) (completeTranscript ev') \<and>
         transcript (step (Result ev') (step (Result ev) s)) =
           completeTranscript ev @
             (drop (length (completeTranscript ev)) (completeTranscript ev') @
              interimTranscript ev')"
proof -
  have p: "prefix (completeTranscript ev) (completeTranscript ev')"
    using assms by (rule complete_prefix)
  then have "completeTranscript ev' =
      completeTranscript ev @ drop (length (completeTranscript ev)) (completeTranscript ev')"
    by (auto simp: prefix_def)
  then have "fullTranscript ev' = completeTranscript ev @
      (drop (length (completeTranscript ev)) (completeTranscript ev') @ interimTranscript ev')"
    by (simp add: fullTranscript_def)
  then show ?thesis
    using p by (simp add: step_def wpmEffect_frame onresult_def fullTranscript_def)
qed

theorem final_prefix_append_only_witness:
  "finals_first snapshot_a \<and> finals_kept snapshot_a snapshot_b \<and>
   transcript (step (Result snapshot_a) fresh) = js ''hello wor'' \<and>
   prefix (js ''hello '') (js ''hello world '') \<and>
   transcript (step (Result snapshot_b) (step (Result snapshot_a) fresh))
     = js ''hello world how''"
proof -
  have h1: "finals_first snapshot_a"
    by code_simp
  have h2: "finals_kept snapshot_a snapshot_b"
    by code_simp
  have c1: "completeTranscript snapshot_a = js ''hello ''"
    by code_simp
  have c2: "completeTranscript snapshot_b = js ''hello world ''"
    by code_simp
  have i1: "interimTranscript snapshot_a = js ''wor''"
    by code_simp
  have i2: "interimTranscript snapshot_b = js ''how''"
    by code_simp
  show ?thesis
    using final_prefix_append_only [OF h1 h2, of fresh] h1 h2
    by (simp add: c1 c2 i1 i2 js_def)
qed

text \<open>
  C2. A snapshot that arrives when the component is not recording is not discarded: the
  handler has no test of the state and stores the transcript of the snapshot. Here the
  session is stopped with the transcript \<open>hel\<close> and a late snapshot makes it \<open>hello\<close>.
\<close>

theorem late_snapshot_not_discarded:
  "\<not> isRecording (run [Start 0 False, Result (snapshot 0 [interim_result ''hel'']), Stop 4000]
        fresh) \<and>
   transcript (run [Start 0 False, Result (snapshot 0 [interim_result ''hel'']), Stop 4000]
        fresh) = js ''hel'' \<and>
   transcript (run [Start 0 False, Result (snapshot 0 [interim_result ''hel'']), Stop 4000,
        Result (snapshot 0 [final_result ''hello''])] fresh) = js ''hello''"
  by code_simp

text \<open>
  C2, as the code has it. A snapshot that arrives when the component is not recording
  replaces the transcript and the transcript ref and nothing else: the recording flag, the
  word count, the speed, the duration, the error and the history stay as they were.
\<close>

theorem late_snapshot_changes_only_transcript:
  assumes "\<not> isRecording s"
  shows "step (Result ev) s =
           s\<lparr>currentTranscriptRef := fullTranscript ev, transcript := fullTranscript ev\<rparr> \<and>
         \<not> isRecording (step (Result ev) s) \<and>
         wordCount (step (Result ev) s) = wordCount s \<and>
         wpm (step (Result ev) s) = wpm s \<and>
         duration (step (Result ev) s) = duration s \<and>
         error (step (Result ev) s) = error s \<and>
         results (step (Result ev) s) = results s"
proof -
  have "\<not> isRecording (onresult ev s)"
    using assms by (simp add: onresult_def)
  then have "step (Result ev) s = onresult ev s"
    by (simp add: step_def wpmEffect_idle)
  then show ?thesis
    using assms by (simp add: onresult_def)
qed

theorem late_snapshot_changes_only_transcript_witness:
  "\<not> isRecording fresh \<and>
   step (Result snapshot_a) fresh =
     fresh\<lparr>currentTranscriptRef := js ''hello wor'', transcript := js ''hello wor''\<rparr> \<and>
   wordCount (step (Result snapshot_a) fresh) = 0 \<and>
   wpm (step (Result snapshot_a) fresh) = 0 \<and>
   results (step (Result snapshot_a) fresh) = []"
proof -
  have h: "\<not> isRecording fresh"
    by (simp add: fresh_def initial_state_def)
  have f: "fullTranscript snapshot_a = js ''hello wor''"
    by code_simp
  show ?thesis
    using late_snapshot_changes_only_transcript [OF h, of snapshot_a] h
    by (simp add: f) (simp add: fresh_def initial_state_def)
qed

section \<open>The speed while recording\<close>





text \<open>
  The earlier variant of the effect has no threshold: with a transcript that is not blank
  it computes the speed at every positive duration.
\<close>

lemma wpmEffect_earlier_no_threshold:
  assumes "isRecording s" and "0 < duration s" and "trim (transcript s) \<noteq> []"
  shows "wpm (wpmEffect_earlier s) =
           Math_round ((of_nat (length (words_of (trim (transcript s)))) / duration s) * 60)"
  using assms by (simp add: wpmEffect_earlier_def Let_def)

lemma wpmEffect_earlier_at_5_seconds: "wpm (wpmEffect_earlier spoken_5s) = 24"
  by code_simp

lemma getWpmLabel_earlier_at_0: "getWpmLabel_earlier 0 = js ''Slow''"
  by (simp add: getWpmLabel_earlier_def)

section \<open>Stopping and the history\<close>

text \<open>
  C4. Stopping appends a result to the history exactly when the trimmed transcript is not
  empty and has a word: then the new result is put in front and the list is cut to 10,
  otherwise the history is left as it is. A transcript of white space only (the empty one
  too) leaves it as it is, a transcript that is not blank after trimming always has a
  word, and no event other than a stop changes the history. The transcript that a stop
  reads from the ref is the transcript of the state in every run from the initial state.
\<close>

theorem stop_appends_iff_transcript_has_words:
  "(trim (currentTranscriptRef s) \<noteq> [] \<and> 0 < length (words_of (trim (currentTranscriptRef s)))
      \<longrightarrow> results (stopRecording now s) = take 10 (finalResult now s # results s)) \<and>
   (\<not> (trim (currentTranscriptRef s) \<noteq> [] \<and>
        0 < length (words_of (trim (currentTranscriptRef s))))
      \<longrightarrow> results (stopRecording now s) = results s) \<and>
   ((\<forall>c \<in> set (currentTranscriptRef s). isWhiteSpace c)
      \<longrightarrow> results (stopRecording now s) = results s) \<and>
   (trim (currentTranscriptRef s) \<noteq> []
      \<longrightarrow> 0 < length (words_of (trim (currentTranscriptRef s)))) \<and>
   ((\<forall>t. e \<noteq> Stop t) \<longrightarrow> results (step e s) = results s) \<and>
   results (step (Stop now) s) = results (stopRecording now s) \<and>
   transcript (run es (initial_state r)) = currentTranscriptRef (run es (initial_state r))"
proof -
  have "(\<forall>t. e \<noteq> Stop t) \<longrightarrow> results (step e s) = results s"
    by (cases e) (simp_all add: step_results)
  moreover have "(\<forall>c \<in> set (currentTranscriptRef s). isWhiteSpace c)
      \<longrightarrow> results (stopRecording now s) = results s"
    using trim_Nil_iff [of "currentTranscriptRef s"] by (simp add: stopRecording_results)
  moreover have
    "transcript (run es (initial_state r)) = currentTranscriptRef (run es (initial_state r))"
    by (rule run_transcript_ref) (simp add: initial_state_def)
  ultimately show ?thesis
    using words_of_trim_pos [of "currentTranscriptRef s"]
    by (simp add: stopRecording_results step_results)
qed

theorem stop_appends_iff_transcript_has_words_witness:
  "trim (currentTranscriptRef said_hello_world) \<noteq> [] \<and>
   0 < length (words_of (trim (currentTranscriptRef said_hello_world))) \<and>
   results (stopRecording 7 said_hello_world) = [finalResult 7 said_hello_world] \<and>
   SpeechResult.transcript (finalResult 7 said_hello_world) = js ''hello world'' \<and>
   SpeechResult.wordCount (finalResult 7 said_hello_world) = 2 \<and>
   list_all isWhiteSpace (currentTranscriptRef said_blank) \<and>
   currentTranscriptRef said_blank \<noteq> [] \<and>
   results (stopRecording 7 said_blank) = [] \<and>
   results (stopRecording 7 (step (Start 0 False) fresh)) = [] \<and>
   results (step Reset (stopRecording 7 said_hello_world))
     = results (stopRecording 7 said_hello_world)"
proof -
  have a: "trim (currentTranscriptRef said_hello_world) \<noteq> []"
    by code_simp
  have b: "0 < length (words_of (trim (currentTranscriptRef said_hello_world)))"
    by code_simp
  have c: "results said_hello_world = []"
    by code_simp
  have d: "\<forall>c \<in> set (currentTranscriptRef said_blank). isWhiteSpace c"
    by code_simp
  have d': "currentTranscriptRef said_blank \<noteq> []"
    by code_simp
  have e: "results said_blank = []"
    by code_simp
  have f: "\<forall>c \<in> set (currentTranscriptRef (step (Start 0 False) fresh)). isWhiteSpace c"
    by code_simp
  have g: "results (step (Start 0 False) fresh) = []"
    by code_simp
  have h: "SpeechResult.transcript (finalResult 7 said_hello_world) = js ''hello world''"
    by code_simp
  have i: "SpeechResult.wordCount (finalResult 7 said_hello_world) = 2"
    by code_simp
  have j: "\<forall>t. Reset \<noteq> Stop t"
    by simp
  show ?thesis
    using stop_appends_iff_transcript_has_words [of said_hello_world 7 Reset]
      stop_appends_iff_transcript_has_words [of said_blank 7 Reset]
      stop_appends_iff_transcript_has_words [of "step (Start 0 False) fresh" 7 Reset]
      stop_appends_iff_transcript_has_words [of "stopRecording 7 said_hello_world" 7 Reset]
      a b c d d' e f g h i j
    by (simp add: list_all_iff)
qed

text \<open>
  C5. A stop that saves puts the new result at the head of the history and the history
  then has at most 10 entries: below 10 entries nothing is dropped, at 10 entries the last
  one, which is the oldest, is dropped and the others follow the new result in their
  order. In every run from the initial state the history has at most 10 entries.
\<close>

theorem history_newest_first_at_most_10:
  assumes "trim (currentTranscriptRef s) \<noteq> []"
  shows "hd (results (stopRecording now s)) = finalResult now s \<and>
         length (results (stopRecording now s)) \<le> 10 \<and>
         (length (results s) < 10 \<longrightarrow>
            results (stopRecording now s) = finalResult now s # results s) \<and>
         (length (results s) = 10 \<longrightarrow>
            results (stopRecording now s) = finalResult now s # butlast (results s)) \<and>
         length (results (run es (initial_state r))) \<le> 10"
proof -
  have "length (results (run es (initial_state r))) \<le> 10"
    by (rule run_results_bound) (simp add: initial_state_def)
  moreover have "length (results s) = 10 \<longrightarrow> take 9 (results s) = butlast (results s)"
    by (simp add: butlast_conv_take)
  ultimately show ?thesis
    using assms by (simp add: stopRecording_results)
qed

theorem history_newest_first_at_most_10_witness:
  "trim (currentTranscriptRef said_hello_world) \<noteq> [] \<and>
   results (stopRecording 7 said_hello_world) = [finalResult 7 said_hello_world] \<and>
   map timestamp (results (run ten_sessions fresh)) = [10, 9, 8, 7, 6, 5, 4, 3, 2, 1] \<and>
   trim (currentTranscriptRef (step (Result (snapshot 0 [final_result ''more''])) (run ten_sessions fresh))) \<noteq> [] \<and>
   map timestamp (results (stopRecording 11
      (step (Result (snapshot 0 [final_result ''more''])) (run ten_sessions fresh))))
     = [11, 10, 9, 8, 7, 6, 5, 4, 3, 2] \<and>
   length (results (run (ten_sessions @ ten_sessions) (initial_state (js ''uk'')))) \<le> 10"
proof -
  let ?s = "step (Result (snapshot 0 [final_result ''more''])) (run ten_sessions fresh)"
  have a: "trim (currentTranscriptRef said_hello_world) \<noteq> []"
    by code_simp
  have b: "results said_hello_world = []"
    by code_simp
  have c: "map timestamp (results (run ten_sessions fresh)) = [10, 9, 8, 7, 6, 5, 4, 3, 2, 1]"
    by code_simp
  have "currentTranscriptRef ?s = fullTranscript (snapshot 0 [final_result ''more''])"
    by (simp add: step_def wpmEffect_frame onresult_def)
  moreover have "trim (fullTranscript (snapshot 0 [final_result ''more''])) \<noteq> []"
    by code_simp
  ultimately have d: "trim (currentTranscriptRef ?s) \<noteq> []"
    by simp
  have e: "results ?s = results (run ten_sessions fresh)"
    by (simp add: step_results)
  have "length (map timestamp (results (run ten_sessions fresh))) = 10"
    by (simp only: c) simp
  then have f: "length (results (run ten_sessions fresh)) = 10"
    by simp
  have g: "timestamp (finalResult 11 ?s) = 11"
    by (simp add: finalResult_def Let_def)
  have "map timestamp (results (stopRecording 11 ?s)) =
          11 # butlast (map timestamp (results (run ten_sessions fresh)))"
    using history_newest_first_at_most_10 [OF d, of 11 "[]" "[]"] e f g
    by (simp add: map_butlast)
  then have h: "map timestamp (results (stopRecording 11 ?s)) = [11, 10, 9, 8, 7, 6, 5, 4, 3, 2]"
    by (simp add: c)
  show ?thesis
    using history_newest_first_at_most_10 [OF a, of 7 "ten_sessions @ ten_sessions" "js ''uk''"]
      a b c d h
    by simp
qed

section \<open>The speed formula and the bands\<close>



lemma REGIONAL_SPEEDS_valid:
  assumes "REGIONAL_SPEEDS k = Some e"
  shows "valid_profile (ranges e)"
proof -
  have "(k, e) \<in> set REGIONAL_SPEEDS_table"
    using assms unfolding REGIONAL_SPEEDS_def by (rule map_of_SomeD)
  then show ?thesis
    by (auto simp: REGIONAL_SPEEDS_table_def region_entry_def valid_profile_def)
qed

lemma labelInRanges_band: "w \<noteq> 0 \<Longrightarrow> labelInRanges w p = band_label (band_spec w p)"
  by (simp add: labelInRanges_def band_spec_def)

lemma band_label_inj: "band_label a = band_label b \<Longrightarrow> a = b"
  by (cases a; cases b) (simp_all add: js_def)

text \<open>
  C7. For every region of the table, whose breakpoints are ordered as a profile's must be,
  the label is the one of the band of the specification: Pending at 0, else TooSlow below
  \<open>slow\<close>, else Ideal within the normal interval, else Fast below \<open>fast\<close>, else
  VeryFast. The cascade itself gives the band for every ranges record, and different bands
  have different labels.
\<close>

theorem getWpmLabel_is_band:
  "(REGIONAL_SPEEDS k = Some e \<longrightarrow>
      valid_profile (ranges e) \<and>
      getWpmLabel w k = Inr (band_label (band_spec w (ranges e)))) \<and>
   (w \<noteq> 0 \<longrightarrow> labelInRanges w p = band_label (band_spec w p)) \<and>
   (band_label a = band_label b \<longrightarrow> a = b)"
  using REGIONAL_SPEEDS_valid [of k e] labelInRanges_band [of w "ranges e"]
    labelInRanges_band [of w p] band_label_inj [of a b]
  by (auto simp: getWpmLabel_def band_spec_def)

theorem getWpmLabel_is_band_witness:
  "map_option ranges (REGIONAL_SPEEDS (js ''us'')) = Some us_ranges \<and>
   valid_profile us_ranges \<and>
   map (\<lambda>w. getWpmLabel w (js ''us'')) [0, 119, 120, 150, 180, 181, 199, 200] =
     map (\<lambda>b. Inr (band_label b)) [Pending, TooSlow, Fast, Ideal, Ideal, Fast, Fast, VeryFast] \<and>
   map (\<lambda>w. band_spec w us_ranges) [0, 119, 120, 150, 180, 181, 199, 200] =
     [Pending, TooSlow, Fast, Ideal, Ideal, Fast, Fast, VeryFast] \<and>
   labelInRanges 130 us_ranges = js ''Fast'' \<and>
   band_label Fast \<noteq> band_label Ideal"
proof -
  obtain e where e: "REGIONAL_SPEEDS (js ''us'') = Some e" and r: "ranges e = us_ranges"
    by (simp add: REGIONAL_SPEEDS_def REGIONAL_SPEEDS_table_def region_entry_def us_ranges_def
        js_def)
  have b: "map (\<lambda>w. band_spec w us_ranges) [0, 119, 120, 150, 180, 181, 199, 200] =
     [Pending, TooSlow, Fast, Ideal, Ideal, Fast, Fast, VeryFast]"
    by (simp add: band_spec_def us_ranges_def)
  have n: "(130::int) \<noteq> 0" "Fast \<noteq> Ideal"
    by simp_all
  have l: "band_label (band_spec 130 us_ranges) = js ''Fast''"
    by (simp add: band_spec_def us_ranges_def)
  have "\<forall>w. getWpmLabel w (js ''us'') = Inr (band_label (band_spec w us_ranges))"
    using getWpmLabel_is_band [of "js ''us''" e] e r by simp
  moreover have "valid_profile us_ranges"
    using getWpmLabel_is_band [of "js ''us''" e] e r by simp
  moreover have "labelInRanges 130 us_ranges = js ''Fast''"
    using getWpmLabel_is_band [of _ _ 130 us_ranges] n l by simp
  moreover have "band_label Fast \<noteq> band_label Ideal"
    using getWpmLabel_is_band [of _ _ _ _ Fast Ideal] n by blast
  ultimately show ?thesis
    using e r b by simp
qed

section \<open>Termination of the recognition and reset\<close>



text \<open>
  C9. Reset sets the transcript, the word count, the speed and the error message (and the
  duration and the transcript ref) to their initial values and leaves the history, the
  recording flag and everything else as it is; the speed effect that runs afterwards
  changes nothing.
\<close>

theorem reset_clears_session_keeps_history:
  "transcript (reset s) = transcript (initial_state r) \<and>
   wordCount (reset s) = wordCount (initial_state r) \<and>
   wpm (reset s) = wpm (initial_state r) \<and>
   error (reset s) = error (initial_state r) \<and>
   transcript (reset s) = [] \<and> wordCount (reset s) = 0 \<and> wpm (reset s) = 0 \<and>
   error (reset s) = [] \<and>
   results (reset s) = results s \<and>
   step Reset s = reset s \<and>
   reset s = s\<lparr>transcript := [], wordCount := 0, duration := 0, wpm := 0, error := [],
               currentTranscriptRef := []\<rparr>"
proof -
  have "trim (transcript (reset s)) = []"
    by (simp add: reset_def trim_def)
  then have "step Reset s = reset s"
    by (simp add: step_def wpmEffect_blank)
  then show ?thesis
    by (simp add: reset_def initial_state_def)
qed



end
